theory Spec2Isabelle
  imports Main "HOL-Library.Sublist"
begin

section \<open>The ontology extractor of scripts/extract-z-anatomy-ontology.py\<close>

text \<open>
  The script walks five named collections of the host editor's scene, classifies each
  collection by keywords, and appends one part record per uniquely named mesh object.
  The model below covers the pure part of the script: the three functions
  \<^verbatim>\<open>normalize_part_id\<close>, \<^verbatim>\<open>determine_system\<close> and the record-building loop of
  \<^verbatim>\<open>extract_ontology\<close>. The progress prints and the two file writes that follow the
  loop are left out; the value of \<open>extract_ontology\<close> is the list \<^verbatim>\<open>ontology\<close>
  that both files serialise.
\<close>

subsection \<open>Python strings\<close>

text \<open>
  A Python \<^verbatim>\<open>str\<close> is a sequence of code points. A \<^typ>\<open>char\<close> here is one code point
  in the range 0..255 (ASCII and Latin-1); \<open>of_char\<close> reads its number. The three
  character tables below are those of Python 3 on that range. Every name the script
  itself writes down lies in that range; strings of arbitrary code points are the subject
  of a later subsection.
\<close>

text \<open>\<^verbatim>\<open>str.lower()\<close> on one code point: A..Z and the Latin-1 capitals move up by 32.\<close>

definition py_lower_char :: "char \<Rightarrow> char" where
  "py_lower_char c =
     (let n = (of_char c :: nat)
      in if (65 \<le> n \<and> n \<le> 90) \<or> (192 \<le> n \<and> n \<le> 214) \<or> (216 \<le> n \<and> n \<le> 222)
         then char_of (n + 32) else c)"

definition lower :: "string \<Rightarrow> string" where
  "lower s = map py_lower_char s"

text \<open>The class \<^verbatim>\<open>\w\<close> of the \<^verbatim>\<open>re\<close> module: alphanumeric code points and the underscore.\<close>

definition is_word :: "char \<Rightarrow> bool" where
  "is_word c =
     (let n = (of_char c :: nat)
      in (48 \<le> n \<and> n \<le> 57) \<or> (65 \<le> n \<and> n \<le> 90) \<or> n = 95 \<or> (97 \<le> n \<and> n \<le> 122)
         \<or> n = 170 \<or> n = 178 \<or> n = 179 \<or> n = 181 \<or> n = 185 \<or> n = 186
         \<or> (188 \<le> n \<and> n \<le> 190) \<or> (192 \<le> n \<and> n \<le> 214)
         \<or> (216 \<le> n \<and> n \<le> 246) \<or> (248 \<le> n \<and> n \<le> 255))"

text \<open>The class \<^verbatim>\<open>\s\<close>: tab to carriage return, 0x1C to space, NEL and no-break space.\<close>

definition is_space :: "char \<Rightarrow> bool" where
  "is_space c =
     (let n = (of_char c :: nat)
      in (9 \<le> n \<and> n \<le> 13) \<or> (28 \<le> n \<and> n \<le> 32) \<or> n = 133 \<or> n = 160)"

text \<open>The class \<^verbatim>\<open>[-\s]\<close> of the second substitution.\<close>

definition is_sep :: "char \<Rightarrow> bool" where
  "is_sep c = (c = CHR ''-'' \<or> is_space c)"

text \<open>\<^verbatim>\<open>kw in s\<close>: the keyword occurs in \<open>s\<close> as a contiguous substring.\<close>

fun str_contains :: "string \<Rightarrow> string \<Rightarrow> bool" where
  "str_contains [] kw = (kw = [])"
| "str_contains (c # cs) kw = (prefix kw (c # cs) \<or> str_contains cs kw)"

text \<open>
  \<^verbatim>\<open>s.replace(old, new)\<close>: every occurrence of \<open>old\<close>, found from the left without
  overlap, becomes \<open>new\<close>. With an empty \<open>old\<close> Python puts \<open>new\<close> around every
  character.
\<close>

function str_replace :: "string \<Rightarrow> string \<Rightarrow> string \<Rightarrow> string" where
  "str_replace [] old new = (if old = [] then new else [])"
| "str_replace (c # cs) old new =
     (if old = [] then new @ c # str_replace cs old new
      else if prefix old (c # cs) then new @ str_replace (drop (length old) (c # cs)) old new
      else c # str_replace cs old new)"
  by pat_completeness auto
termination
  by (relation "measure (\<lambda>(s, old, new). length s)") auto

text \<open>\<^verbatim>\<open>re.sub(r'[-\s]+', '_', s)\<close>: each maximal run of separators becomes one underscore.\<close>

function sub_sep_runs :: "string \<Rightarrow> string" where
  "sub_sep_runs [] = []"
| "sub_sep_runs (c # cs) =
     (if is_sep c then CHR ''_'' # sub_sep_runs (dropWhile is_sep cs)
      else c # sub_sep_runs cs)"
  by pat_completeness auto
termination
  by (relation "measure length") (auto simp: less_Suc_eq_le length_dropWhile_le)

text \<open>\<^verbatim>\<open>s.strip('_')\<close>: underscores go from the left end, then from the right end.\<close>

definition strip_underscores :: "string \<Rightarrow> string" where
  "strip_underscores s =
     rev (dropWhile (\<lambda>c. c = CHR ''_'') (rev (dropWhile (\<lambda>c. c = CHR ''_'') s)))"

subsection \<open>normalize\_part\_id\<close>

definition normalize_part_id :: "string \<Rightarrow> string" where
  "normalize_part_id nm =
     (let normalized = filter (\<lambda>c. is_word c \<or> is_space c \<or> c = CHR ''-'') (lower nm);
          normalized = sub_sep_runs normalized;
          normalized = strip_underscores normalized
      in normalized)"

subsection \<open>normalize\_part\_id on all code points\<close>

text \<open>
  The same four steps on a string of arbitrary code points, each a natural number; 45 is
  the hyphen and 95 the underscore. What \<^verbatim>\<open>str.lower\<close>, \<^verbatim>\<open>\w\<close> and \<^verbatim>\<open>\s\<close> do beyond
  Latin-1 is fixed by the Unicode tables of the interpreter, which are no part of the
  script: they are parameters. \<open>str_lower\<close> is any function on whole strings, so it may
  change the length of a string and look at the neighbours of a character, as
  \<^verbatim>\<open>str.lower\<close> does for U+0130 and for the capital sigma.
\<close>

record unicode_tables =
  str_lower :: "nat list \<Rightarrow> nat list"
  re_word :: "nat \<Rightarrow> bool"
  re_space :: "nat \<Rightarrow> bool"

definition re_sep :: "unicode_tables \<Rightarrow> nat \<Rightarrow> bool" where
  "re_sep T c = (c = 45 \<or> re_space T c)"

function sub_sep_runs_unicode :: "unicode_tables \<Rightarrow> nat list \<Rightarrow> nat list" where
  "sub_sep_runs_unicode T [] = []"
| "sub_sep_runs_unicode T (c # cs) =
     (if re_sep T c then 95 # sub_sep_runs_unicode T (dropWhile (re_sep T) cs)
      else c # sub_sep_runs_unicode T cs)"
  by pat_completeness auto
termination
  by (relation "measure (\<lambda>(T, s). length s)") (auto simp: less_Suc_eq_le length_dropWhile_le)

definition strip_underscores_unicode :: "nat list \<Rightarrow> nat list" where
  "strip_underscores_unicode s =
     rev (dropWhile (\<lambda>c. c = 95) (rev (dropWhile (\<lambda>c. c = 95) s)))"

definition normalize_part_id_unicode :: "unicode_tables \<Rightarrow> nat list \<Rightarrow> nat list" where
  "normalize_part_id_unicode T nm =
     (let normalized = filter (\<lambda>c. re_word T c \<or> re_space T c \<or> c = 45) (str_lower T nm);
          normalized = sub_sep_runs_unicode T normalized;
          normalized = strip_underscores_unicode normalized
      in normalized)"

text \<open>
  The tables of the first subsection, read as tables on code points: a code point
  below 256 is treated as its \<^typ>\<open>char\<close>, any other one is left alone by
  \<open>latin1_lower\<close> and belongs to neither class.
\<close>

definition latin1_lower :: "nat \<Rightarrow> nat" where
  "latin1_lower n = (if n < 256 then of_char (py_lower_char (char_of n)) else n)"

definition latin1_tables :: unicode_tables where
  "latin1_tables =
     \<lparr>str_lower = map latin1_lower,
      re_word = (\<lambda>n. n < 256 \<and> is_word (char_of n)),
      re_space = (\<lambda>n. n < 256 \<and> is_space (char_of n))\<rparr>"

definition code_points :: "string \<Rightarrow> nat list" where
  "code_points s = map of_char s"

subsection \<open>determine\_system\<close>

definition skeletal_kws :: "string list" where
  "skeletal_kws = [''skeleton'', ''bone'', ''skull'', ''vertebra'', ''rib'', ''femur'']"

definition muscular_kws :: "string list" where
  "muscular_kws = [''muscle'', ''muscular'']"

definition nervous_kws :: "string list" where
  "nervous_kws = [''nerve'', ''nervous'', ''brain'', ''spinal'']"

definition cardiovascular_kws :: "string list" where
  "cardiovascular_kws = [''heart'', ''cardiac'', ''artery'', ''vein'', ''blood'']"

definition respiratory_kws :: "string list" where
  "respiratory_kws = [''lung'', ''respiratory'', ''trachea'', ''bronch'']"

definition digestive_kws :: "string list" where
  "digestive_kws = [''stomach'', ''intestin'', ''digestive'', ''liver'', ''pancrea'']"

definition urinary_kws :: "string list" where
  "urinary_kws = [''kidney'', ''bladder'', ''urinary'', ''ureter'']"

definition lymphatic_kws :: "string list" where
  "lymphatic_kws = [''lymph'', ''spleen'', ''thymus'']"

definition integumentary_kws :: "string list" where
  "integumentary_kws = [''skin'', ''integument'', ''hair'']"

text \<open>\<^verbatim>\<open>any(kw in name_lower for kw in kws)\<close>\<close>

definition any_kw :: "string \<Rightarrow> string list \<Rightarrow> bool" where
  "any_kw name_lower kws = list_ex (str_contains name_lower) kws"

definition determine_system :: "string \<Rightarrow> string \<Rightarrow> string" where
  "determine_system collection_name object_name =
     (let name_lower = lower (collection_name @ '' '' @ object_name)
      in if any_kw name_lower skeletal_kws then ''SKELETAL''
         else if any_kw name_lower muscular_kws then ''MUSCULAR''
         else if any_kw name_lower nervous_kws then ''NERVOUS''
         else if any_kw name_lower cardiovascular_kws then ''CARDIOVASCULAR''
         else if any_kw name_lower respiratory_kws then ''RESPIRATORY''
         else if any_kw name_lower digestive_kws then ''DIGESTIVE''
         else if any_kw name_lower urinary_kws then ''URINARY''
         else if any_kw name_lower lymphatic_kws then ''LYMPHATIC''
         else if any_kw name_lower integumentary_kws then ''INTEGUMENTARY''
         else ''SKELETAL'')"

subsection \<open>The scene, the records and the loop of extract\_ontology\<close>

text \<open>
  An object of the scene has a type tag and a display name; a collection is the sequence
  of its objects in the host's order; \<^verbatim>\<open>bpy.data.collections\<close> maps a collection
  name to its collection.
\<close>

record blender_object =
  obj_type :: string
  obj_name :: string

type_synonym scene = "string \<rightharpoonup> blender_object list"

record synonym_entry =
  synonym :: string
  language :: string
  priority :: int

record part_record =
  partId :: string
  name :: string
  system :: string
  modelPath :: string
  meshName :: string
  synonyms :: "synonym_entry list"

datatype py_error = KeyError string

definition main_collections :: "string list" where
  "main_collections =
     [''1: Skeletal system'',
      ''4: Muscular system'',
      ''5: Cardiovascular system'',
      ''7: Nervous system & Sense organs'',
      ''8: Visceral systems'']"

text \<open>Lines 88 to 104: the synonyms of one object name.\<close>

definition generate_synonyms :: "string \<Rightarrow> synonym_entry list" where
  "generate_synonyms nm =
     (let synonyms = [\<lparr>synonym = lower nm, language = ''en'', priority = 10\<rparr>]
      in if str_contains (lower nm) ''left'' then
           synonyms @ [\<lparr>synonym = str_replace (str_replace (lower nm) ''left'' ''l'') ''.l'' '''',
                         language = ''en'', priority = 8\<rparr>]
         else if str_contains (lower nm) ''right'' then
           synonyms @ [\<lparr>synonym = str_replace (str_replace (lower nm) ''right'' ''r'') ''.r'' '''',
                         language = ''en'', priority = 8\<rparr>]
         else synonyms)"

definition system_paths :: "(string \<times> string) list" where
  "system_paths =
     [(''SKELETAL'', ''skeleton/skeleton-full.glb''),
      (''MUSCULAR'', ''muscular/muscles-full.glb''),
      (''CARDIOVASCULAR'', ''cardiovascular/cardiovascular-full.glb''),
      (''NERVOUS'', ''nervous/nervous-full.glb''),
      (''RESPIRATORY'', ''respiratory/visceral-full.glb''),
      (''DIGESTIVE'', ''respiratory/visceral-full.glb'')]"

text \<open>Line 120: \<^verbatim>\<open>f"/models/{system_paths.get(system, 'skeleton/skeleton-full.glb')}"\<close>\<close>

definition model_path :: "string \<Rightarrow> string" where
  "model_path sys =
     ''/models/'' @ (case map_of system_paths sys of
                       Some p \<Rightarrow> p
                     | None \<Rightarrow> ''skeleton/skeleton-full.glb'')"

text \<open>Lines 85 to 123: the entry built for an object name under the collection's system.\<close>

definition part_entry :: "string \<Rightarrow> string \<Rightarrow> part_record" where
  "part_entry sys nm =
     \<lparr>partId = normalize_part_id nm,
      name = nm,
      system = sys,
      modelPath = model_path sys,
      meshName = nm,
      synonyms = generate_synonyms nm\<rparr>"

text \<open>
  The state of the loop: the list \<^verbatim>\<open>ontology\<close> and the set \<^verbatim>\<open>processed_names\<close>.
  The inner loop (lines 74 to 125) skips an object that is not a mesh or has an empty
  name, skips a name already processed, and otherwise records the name and appends the
  entry.
\<close>

type_synonym extract_state = "part_record list \<times> string set"

fun process_objects :: "string \<Rightarrow> blender_object list \<Rightarrow> extract_state \<Rightarrow> extract_state" where
  "process_objects sys [] st = st"
| "process_objects sys (obj # objs) (ontology, processed_names) =
     (if obj_type obj \<noteq> ''MESH'' \<or> obj_name obj = [] then
        process_objects sys objs (ontology, processed_names)
      else if obj_name obj \<in> processed_names then
        process_objects sys objs (ontology, processed_names)
      else
        process_objects sys objs
          (ontology @ [part_entry sys (obj_name obj)], insert (obj_name obj) processed_names))"

text \<open>\<^verbatim>\<open>bpy.data.collections[collection_name]\<close> raises KeyError on a missing name.\<close>

definition lookup_collection :: "scene \<Rightarrow> string \<Rightarrow> py_error + blender_object list" where
  "lookup_collection scene collection_name =
     (case scene collection_name of
        None \<Rightarrow> Inl (KeyError collection_name)
      | Some collection \<Rightarrow> Inr collection)"

text \<open>The outer loop (lines 64 to 74) over the collection names.\<close>

fun process_collections :: "scene \<Rightarrow> string list \<Rightarrow> extract_state \<Rightarrow> py_error + extract_state" where
  "process_collections scene [] st = Inr st"
| "process_collections scene (collection_name # rest) st =
     (if scene collection_name = None then process_collections scene rest st
      else case lookup_collection scene collection_name of
             Inl e \<Rightarrow> Inl e
           | Inr collection \<Rightarrow>
               (let sys = determine_system collection_name ''''
                in process_collections scene rest (process_objects sys collection st)))"

definition extract_ontology :: "scene \<Rightarrow> py_error + part_record list" where
  "extract_ontology scene =
     (case process_collections scene main_collections ([], {}) of
        Inl e \<Rightarrow> Inl e
      | Inr (ontology, processed_names) \<Rightarrow> Inr ontology)"

subsection \<open>Where a name comes from\<close>

text \<open>
  Notions used to state the properties of the loop: a collection holds a mesh object of
  a given display name; the source collection of a name is the first of the five main
  collections, in the order of the loop, that is present and holds such a mesh.
\<close>

definition has_mesh_named :: "string \<Rightarrow> blender_object list \<Rightarrow> bool" where
  "has_mesh_named n objs = list_ex (\<lambda>obj. obj_type obj = ''MESH'' \<and> obj_name obj = n) objs"

definition collection_has_mesh :: "scene \<Rightarrow> string \<Rightarrow> string \<Rightarrow> bool" where
  "collection_has_mesh scene n collection_name =
     (case scene collection_name of
        None \<Rightarrow> False
      | Some collection \<Rightarrow> has_mesh_named n collection)"

definition source_collection :: "scene \<Rightarrow> string \<Rightarrow> string option" where
  "source_collection scene n = List.find (collection_has_mesh scene n) main_collections"

section \<open>Properties\<close>

subsection \<open>The string operations against their meaning\<close>

text \<open>
  \<open>str_contains\<close> is the contiguous-sublist relation of the library, and
  \<open>str_replace\<close> replaces from the left without overlap; with an empty pattern it
  surrounds every character, as Python does.
\<close>

lemma str_contains_sublist: "str_contains s kw = sublist kw s"
  by (induction s) (auto simp: sublist_Cons_right)

lemma str_replace_examples:
  "str_replace ''aaa'' ''aa'' ''b'' = ''ba''"
  "str_replace ''ab'' '''' ''x'' = ''xaxbx''"
  "str_replace '''' '''' ''x'' = ''x''"
  by simp_all

subsection \<open>Normalisation of a concrete name\<close>

text \<open>
  Claim C2, as the code has it: \<open>normalize_part_id\<close> applied to \<open>Femur.R\<close> returns
  \<open>femurr\<close>. The dot is neither a word character, whitespace nor a hyphen, so the first
  substitution deletes it, and nothing is put in its place.
\<close>

theorem normalize_femur_r: "normalize_part_id ''Femur.R'' = ''femurr''"
  by code_simp

text \<open>The result is not the \<open>femur_r\<close> that claim C2 states.\<close>

theorem normalize_femur_r_counterexample: "normalize_part_id ''Femur.R'' \<noteq> ''femur_r''"
  by code_simp

subsection \<open>Model paths\<close>

text \<open>
  Claim C7: the model path of each of the nine systems. The six systems with an entry in
  \<open>system_paths\<close> take that entry (DIGESTIVE shares the RESPIRATORY file); URINARY,
  LYMPHATIC and INTEGUMENTARY have no entry and take the skeleton file.
\<close>

theorem model_path_table:
  "model_path ''SKELETAL'' = ''/models/skeleton/skeleton-full.glb''
   \<and> model_path ''MUSCULAR'' = ''/models/muscular/muscles-full.glb''
   \<and> model_path ''CARDIOVASCULAR'' = ''/models/cardiovascular/cardiovascular-full.glb''
   \<and> model_path ''NERVOUS'' = ''/models/nervous/nervous-full.glb''
   \<and> model_path ''RESPIRATORY'' = ''/models/respiratory/visceral-full.glb''
   \<and> model_path ''DIGESTIVE'' = ''/models/respiratory/visceral-full.glb''
   \<and> model_path ''URINARY'' = ''/models/skeleton/skeleton-full.glb''
   \<and> model_path ''LYMPHATIC'' = ''/models/skeleton/skeleton-full.glb''
   \<and> model_path ''INTEGUMENTARY'' = ''/models/skeleton/skeleton-full.glb''"
  by (simp add: model_path_def system_paths_def)

subsection \<open>Idempotence of normalisation\<close>

lemma py_lower_char_idem: "py_lower_char (py_lower_char c) = py_lower_char c"
  by (auto simp: py_lower_char_def Let_def)

lemma underscore_facts:
  "is_word CHR ''_''" "\<not> is_sep CHR ''_''" "py_lower_char CHR ''_'' = CHR ''_''"
  by (simp_all add: is_word_def is_sep_def is_space_def py_lower_char_def)

lemma set_sub_sep_runs: "set (sub_sep_runs s) \<subseteq> insert CHR ''_'' {c \<in> set s. \<not> is_sep c}"
proof (induction s rule: sub_sep_runs.induct)
  case 1
  then show ?case by simp
next
  case (2 c cs)
  then show ?case by (auto dest: set_dropWhileD)
qed

lemma sub_sep_runs_id: "\<forall>c\<in>set s. \<not> is_sep c \<Longrightarrow> sub_sep_runs s = s"
  by (induction s) auto

lemma set_strip_underscores: "set (strip_underscores s) \<subseteq> set s"
proof
  fix x assume "x \<in> set (strip_underscores s)"
  then have "x \<in> set (dropWhile (\<lambda>c. c = CHR ''_'') (rev (dropWhile (\<lambda>c. c = CHR ''_'') s)))"
    by (simp add: strip_underscores_def)
  then have "x \<in> set (rev (dropWhile (\<lambda>c. c = CHR ''_'') s))"
    by (rule set_dropWhileD)
  then have "x \<in> set (dropWhile (\<lambda>c. c = CHR ''_'') s)"
    by simp
  then show "x \<in> set s"
    by (rule set_dropWhileD)
qed

lemma strip_both_fixed:
  assumes zs: "zs = dropWhile P (rev (dropWhile P s))"
  shows "dropWhile P (rev zs) = rev zs"
proof (cases "zs = []")
  case True
  then show ?thesis by simp
next
  case False
  let ?ys = "dropWhile P s"
  from False obtain x where x: "x \<in> set (rev ?ys)" "\<not> P x"
    unfolding zs by auto
  then have "last zs = last (rev ?ys)"
    unfolding zs by (rule dropWhile_last)
  moreover from x have ys: "?ys \<noteq> []" by (auto dest: set_dropWhileD)
  ultimately have "hd (rev zs) = hd ?ys"
    using False by (simp add: hd_rev last_rev)
  moreover have "\<not> P (hd ?ys)" using ys by (rule hd_dropWhile)
  ultimately show ?thesis by (simp add: dropWhile_eq_self_iff)
qed

lemma strip_underscores_idem: "strip_underscores (strip_underscores s) = strip_underscores s"
proof -
  let ?P = "\<lambda>c. c = CHR ''_''"
  let ?zs = "dropWhile ?P (rev (dropWhile ?P s))"
  have "dropWhile ?P (rev ?zs) = rev ?zs" by (rule strip_both_fixed) (rule refl)
  moreover have "dropWhile ?P ?zs = ?zs" by (simp add: dropWhile_dropWhile1)
  ultimately show ?thesis by (simp add: strip_underscores_def)
qed

lemma lower_id: "\<forall>c\<in>set s. py_lower_char c = c \<Longrightarrow> lower s = s"
  by (simp add: lower_def map_idI)

lemma normalize_chars:
  assumes "c \<in> set (normalize_part_id nm)"
  shows "is_word c \<and> \<not> is_sep c \<and> py_lower_char c = c"
proof -
  let ?kept = "filter (\<lambda>c. is_word c \<or> is_space c \<or> c = CHR ''-'') (lower nm)"
  from assms have "c \<in> set (sub_sep_runs ?kept)"
    using set_strip_underscores by (auto simp: normalize_part_id_def)
  then have "c = CHR ''_'' \<or> (c \<in> set ?kept \<and> \<not> is_sep c)"
    using set_sub_sep_runs by blast
  then show ?thesis
  proof
    assume "c = CHR ''_''"
    then show ?thesis by (simp add: underscore_facts)
  next
    assume k: "c \<in> set ?kept \<and> \<not> is_sep c"
    then have "is_word c" by (auto simp: is_sep_def)
    moreover from k obtain d where "c = py_lower_char d" by (auto simp: lower_def)
    then have "py_lower_char c = c" by (simp add: py_lower_char_idem)
    ultimately show ?thesis using k by simp
  qed
qed

text \<open>On strings of \<^typ>\<open>char\<close> the function is idempotent.\<close>

lemma normalize_part_id_idem:
  "normalize_part_id (normalize_part_id nm) = normalize_part_id nm"
proof -
  let ?r = "normalize_part_id nm"
  have chars: "\<forall>c\<in>set ?r. is_word c \<and> \<not> is_sep c \<and> py_lower_char c = c"
    using normalize_chars by blast
  have "lower ?r = ?r" using chars by (simp add: lower_id)
  moreover have "filter (\<lambda>c. is_word c \<or> is_space c \<or> c = CHR ''-'') ?r = ?r"
    using chars by (simp add: filter_id_conv)
  moreover have "sub_sep_runs ?r = ?r" using chars by (simp add: sub_sep_runs_id)
  moreover have "strip_underscores ?r = ?r"
    by (simp add: normalize_part_id_def strip_underscores_idem)
  ultimately show ?thesis
    by (simp add: normalize_part_id_def[of ?r])
qed

text \<open>The other example of the specification: runs of blanks and hyphens collapse.\<close>

lemma normalize_left_lung: "normalize_part_id ''  Left--Lung  '' = ''left_lung''"
  by code_simp

subsection \<open>Idempotence of normalisation on all code points\<close>

lemma set_sub_sep_runs_unicode:
  "set (sub_sep_runs_unicode T s) \<subseteq> insert 95 {c \<in> set s. \<not> re_sep T c}"
proof (induction T s rule: sub_sep_runs_unicode.induct)
  case (1 T)
  then show ?case by simp
next
  case (2 T c cs)
  then show ?case by (auto dest: set_dropWhileD)
qed

lemma sub_sep_runs_unicode_id: "\<forall>c\<in>set s. \<not> re_sep T c \<Longrightarrow> sub_sep_runs_unicode T s = s"
  by (induction s) auto

lemma set_strip_underscores_unicode: "set (strip_underscores_unicode s) \<subseteq> set s"
proof
  fix x assume "x \<in> set (strip_underscores_unicode s)"
  then have "x \<in> set (dropWhile (\<lambda>c. c = 95) (rev (dropWhile (\<lambda>c. c = 95) s)))"
    by (simp add: strip_underscores_unicode_def)
  then have "x \<in> set (rev (dropWhile (\<lambda>c. c = 95) s))"
    by (rule set_dropWhileD)
  then have "x \<in> set (dropWhile (\<lambda>c. c = 95) s)"
    by simp
  then show "x \<in> set s"
    by (rule set_dropWhileD)
qed

lemma strip_underscores_unicode_idem:
  "strip_underscores_unicode (strip_underscores_unicode s) = strip_underscores_unicode s"
proof -
  let ?P = "\<lambda>c::nat. c = 95"
  let ?zs = "dropWhile ?P (rev (dropWhile ?P s))"
  have "dropWhile ?P (rev ?zs) = rev ?zs" by (rule strip_both_fixed) (rule refl)
  moreover have "dropWhile ?P ?zs = ?zs" by (simp add: dropWhile_dropWhile1)
  ultimately show ?thesis by (simp add: strip_underscores_unicode_def)
qed

lemma normalize_unicode_chars:
  assumes "c \<in> set (normalize_part_id_unicode T nm)"
  shows "c = 95 \<or> (c \<in> set (str_lower T nm) \<and> re_word T c \<and> \<not> re_sep T c)"
proof -
  let ?kept = "filter (\<lambda>c. re_word T c \<or> re_space T c \<or> c = 45) (str_lower T nm)"
  from assms have "c \<in> set (sub_sep_runs_unicode T ?kept)"
    using set_strip_underscores_unicode by (auto simp: normalize_part_id_unicode_def)
  then have "c = 95 \<or> (c \<in> set ?kept \<and> \<not> re_sep T c)"
    using set_sub_sep_runs_unicode by blast
  then show ?thesis by (auto simp: re_sep_def)
qed

text \<open>
  Claim C9: \<open>normalize_part_id\<close> is idempotent, on every string of code points. It is
  proved for every choice of the interpreter's tables with three properties, all of them
  true of Python: a string made only of underscores and of characters that occur in a
  lowercased string is left unchanged by \<^verbatim>\<open>str.lower\<close>; the underscore is a word
  character; the underscore is not whitespace. A normalised name then holds only such
  characters, none of them a separator, and has no underscore at either end, so each of
  the four steps leaves it as it is.
\<close>

theorem normalize_idempotent:
  assumes stable: "\<And>s r. set r \<subseteq> insert 95 (set (str_lower T s)) \<Longrightarrow> str_lower T r = r"
      and word: "re_word T 95"
      and space: "\<not> re_space T 95"
  shows "normalize_part_id_unicode T (normalize_part_id_unicode T nm)
           = normalize_part_id_unicode T nm"
proof -
  let ?r = "normalize_part_id_unicode T nm"
  have chars: "c = 95 \<or> (c \<in> set (str_lower T nm) \<and> re_word T c \<and> \<not> re_sep T c)"
    if "c \<in> set ?r" for c
    using that by (rule normalize_unicode_chars)
  have "set ?r \<subseteq> insert 95 (set (str_lower T nm))"
    using chars by auto
  then have "str_lower T ?r = ?r" by (rule stable)
  moreover have "re_word T c" if "c \<in> set ?r" for c
    using chars [OF that] word by auto
  then have "filter (\<lambda>c. re_word T c \<or> re_space T c \<or> c = 45) ?r = ?r"
    by (simp add: filter_id_conv)
  moreover have "\<not> re_sep T c" if "c \<in> set ?r" for c
    using chars [OF that] space by (auto simp: re_sep_def)
  then have "sub_sep_runs_unicode T ?r = ?r"
    by (intro sub_sep_runs_unicode_id) blast
  moreover have "strip_underscores_unicode ?r = ?r"
    by (simp add: normalize_part_id_unicode_def strip_underscores_unicode_idem)
  ultimately show ?thesis
    by (simp add: normalize_part_id_unicode_def [of T ?r])
qed

text \<open>The Latin-1 tables have the three properties.\<close>

lemma latin1_lower_idem: "latin1_lower (latin1_lower n) = latin1_lower n"
  by (simp add: latin1_lower_def py_lower_char_idem)

lemma latin1_lower_underscore: "latin1_lower 95 = 95"
proof -
  have "char_of (95::nat) = CHR ''_''" by code_simp
  then show ?thesis by (simp add: latin1_lower_def underscore_facts)
qed

lemma latin1_stable:
  assumes "set r \<subseteq> insert 95 (set (str_lower latin1_tables s))"
  shows "str_lower latin1_tables r = r"
proof -
  have "latin1_lower c = c" if "c \<in> set r" for c
  proof -
    from that assms have "c = 95 \<or> c \<in> latin1_lower ` set s"
      by (auto simp: latin1_tables_def)
    then show ?thesis
      using latin1_lower_idem latin1_lower_underscore by auto
  qed
  then have "map latin1_lower r = r" by (simp add: map_idI)
  then show ?thesis by (simp add: latin1_tables_def)
qed

lemma latin1_underscore: "re_word latin1_tables 95" "\<not> re_space latin1_tables 95"
proof -
  have c: "char_of (95::nat) = CHR ''_''" by code_simp
  show "re_word latin1_tables 95" "\<not> re_space latin1_tables 95"
    using underscore_facts by (simp_all add: latin1_tables_def c is_sep_def)
qed

theorem normalize_idempotent_witness:
  "re_word latin1_tables 95 \<and> \<not> re_space latin1_tables 95
   \<and> normalize_part_id_unicode latin1_tables (code_points ''  Left--Lung.L  '')
       = code_points ''left_lungl''
   \<and> normalize_part_id_unicode latin1_tables
        (normalize_part_id_unicode latin1_tables (code_points ''  Left--Lung.L  ''))
       = normalize_part_id_unicode latin1_tables (code_points ''  Left--Lung.L  '')"
proof -
  have run: "normalize_part_id_unicode latin1_tables (code_points ''  Left--Lung.L  '')
       = code_points ''left_lungl''"
    by code_simp
  from normalize_idempotent [of latin1_tables, OF latin1_stable latin1_underscore]
  have "normalize_part_id_unicode latin1_tables
        (normalize_part_id_unicode latin1_tables (code_points ''  Left--Lung.L  ''))
       = normalize_part_id_unicode latin1_tables (code_points ''  Left--Lung.L  '')" .
  with run latin1_underscore show ?thesis by (intro conjI)
qed

text \<open>
  On strings of \<^typ>\<open>char\<close> the function on code points, taken at the Latin-1 tables,
  is \<open>normalize_part_id\<close>: each step commutes with reading the code points.
\<close>

lemma latin1_lower_of_char:
  "str_lower latin1_tables (code_points s) = code_points (lower s)"
  by (simp add: latin1_tables_def latin1_lower_def code_points_def lower_def)

lemma latin1_word_of_char: "re_word latin1_tables (of_char c) = is_word c"
  by (simp add: latin1_tables_def)

lemma latin1_space_of_char: "re_space latin1_tables (of_char c) = is_space c"
  by (simp add: latin1_tables_def)

lemma of_char_hyphen: "(of_char c = (45::nat)) = (c = CHR ''-'')"
proof -
  have "of_char CHR ''-'' = (45::nat)" by simp
  then show ?thesis by (metis of_char_eq_iff)
qed

lemma of_char_underscore: "(of_char c = (95::nat)) = (c = CHR ''_'')"
proof -
  have "of_char CHR ''_'' = (95::nat)" by simp
  then show ?thesis by (metis of_char_eq_iff)
qed

lemma latin1_sep_of_char: "re_sep latin1_tables (of_char c) = is_sep c"
  by (simp add: re_sep_def is_sep_def latin1_space_of_char of_char_hyphen)

lemma dropWhile_code_points:
  "(\<And>c. P (of_char c) = Q c) \<Longrightarrow> dropWhile P (code_points s) = code_points (dropWhile Q s)"
  by (induction s) (simp_all add: code_points_def)

lemma sub_sep_runs_code_points:
  "sub_sep_runs_unicode latin1_tables (code_points s) = code_points (sub_sep_runs s)"
proof (induction s rule: sub_sep_runs.induct)
  case 1
  then show ?case by (simp add: code_points_def)
next
  case (2 c cs)
  have drop: "dropWhile (re_sep latin1_tables) (code_points cs) = code_points (dropWhile is_sep cs)"
    by (rule dropWhile_code_points) (rule latin1_sep_of_char)
  have cons: "code_points (c # cs) = of_char c # code_points cs"
    by (simp add: code_points_def)
  show ?case
  proof (cases "is_sep c")
    case True
    with 2 drop show ?thesis
      by (simp add: cons latin1_sep_of_char) (simp add: code_points_def)
  next
    case False
    with 2 show ?thesis
      by (simp add: cons latin1_sep_of_char) (simp add: code_points_def)
  qed
qed

lemma strip_underscores_code_points:
  "strip_underscores_unicode (code_points s) = code_points (strip_underscores s)"
proof -
  have d: "dropWhile (\<lambda>n. n = 95) (code_points t) = code_points (dropWhile (\<lambda>c. c = CHR ''_'') t)" for t
    by (rule dropWhile_code_points) (rule of_char_underscore)
  have r: "rev (code_points t) = code_points (rev t)" for t
    by (simp add: code_points_def rev_map)
  show ?thesis
    by (simp add: strip_underscores_unicode_def strip_underscores_def d r)
qed

lemma filter_code_points:
  "filter (\<lambda>c. re_word latin1_tables c \<or> re_space latin1_tables c \<or> c = 45) (code_points s)
     = code_points (filter (\<lambda>c. is_word c \<or> is_space c \<or> c = CHR ''-'') s)"
  by (induction s)
    (simp_all add: code_points_def latin1_word_of_char latin1_space_of_char of_char_hyphen)

lemma normalize_part_id_code_points:
  "normalize_part_id_unicode latin1_tables (code_points s) = code_points (normalize_part_id s)"
  by (simp add: normalize_part_id_unicode_def normalize_part_id_def latin1_lower_of_char
      filter_code_points sub_sep_runs_code_points strip_underscores_code_points)

subsection \<open>Synonyms\<close>

text \<open>
  Claim C1, as the code has it: the name \<open>Lung.L\<close> yields exactly one synonym, the
  lowercased name at priority 10, because \<open>lung.l\<close> contains neither \<open>left\<close> nor
  \<open>right\<close>. A second synonym, in language \<open>en\<close> at priority 8, follows exactly when the
  lowercased name contains one of these two words: if it contains \<open>left\<close>, the lowercased
  name with every \<open>left\<close> replaced by \<open>l\<close> and then every \<open>.l\<close> removed; otherwise, if
  it contains \<open>right\<close>, the lowercased name with every \<open>right\<close> replaced by \<open>r\<close> and
  then every \<open>.r\<close> removed. So \<open>Left Lung.L\<close> yields \<open>left lung.l\<close> and \<open>l lung\<close>,
  and \<open>Right Kidney.R\<close> yields \<open>right kidney.r\<close> and \<open>r kidney\<close>.
\<close>

theorem synonyms_lung_l:
  "generate_synonyms ''Lung.L'' = [\<lparr>synonym = ''lung.l'', language = ''en'', priority = 10\<rparr>]
   \<and> generate_synonyms ''Left Lung.L'' =
       [\<lparr>synonym = ''left lung.l'', language = ''en'', priority = 10\<rparr>,
        \<lparr>synonym = ''l lung'', language = ''en'', priority = 8\<rparr>]
   \<and> generate_synonyms ''Right Kidney.R'' =
       [\<lparr>synonym = ''right kidney.r'', language = ''en'', priority = 10\<rparr>,
        \<lparr>synonym = ''r kidney'', language = ''en'', priority = 8\<rparr>]
   \<and> (length (generate_synonyms nm) = 2) =
       (str_contains (lower nm) ''left'' \<or> str_contains (lower nm) ''right'')
   \<and> generate_synonyms nm =
       \<lparr>synonym = lower nm, language = ''en'', priority = 10\<rparr> #
       (if str_contains (lower nm) ''left'' then
          [\<lparr>synonym = str_replace (str_replace (lower nm) ''left'' ''l'') ''.l'' '''',
            language = ''en'', priority = 8\<rparr>]
        else if str_contains (lower nm) ''right'' then
          [\<lparr>synonym = str_replace (str_replace (lower nm) ''right'' ''r'') ''.r'' '''',
            language = ''en'', priority = 8\<rparr>]
        else [])"
proof -
  have a: "generate_synonyms ''Lung.L'' =
       [\<lparr>synonym = ''lung.l'', language = ''en'', priority = 10\<rparr>]"
    by code_simp
  have b: "generate_synonyms ''Left Lung.L'' =
       [\<lparr>synonym = ''left lung.l'', language = ''en'', priority = 10\<rparr>,
        \<lparr>synonym = ''l lung'', language = ''en'', priority = 8\<rparr>]"
    by code_simp
  have c: "generate_synonyms ''Right Kidney.R'' =
       [\<lparr>synonym = ''right kidney.r'', language = ''en'', priority = 10\<rparr>,
        \<lparr>synonym = ''r kidney'', language = ''en'', priority = 8\<rparr>]"
    by code_simp
  have d: "(length (generate_synonyms nm) = 2) =
       (str_contains (lower nm) ''left'' \<or> str_contains (lower nm) ''right'')"
    by (simp add: generate_synonyms_def Let_def)
  have e: "generate_synonyms nm =
       \<lparr>synonym = lower nm, language = ''en'', priority = 10\<rparr> #
       (if str_contains (lower nm) ''left'' then
          [\<lparr>synonym = str_replace (str_replace (lower nm) ''left'' ''l'') ''.l'' '''',
            language = ''en'', priority = 8\<rparr>]
        else if str_contains (lower nm) ''right'' then
          [\<lparr>synonym = str_replace (str_replace (lower nm) ''right'' ''r'') ''.r'' '''',
            language = ''en'', priority = 8\<rparr>]
        else [])"
    by (simp add: generate_synonyms_def Let_def)
  show ?thesis by (intro conjI a b c d e)
qed

text \<open>The name \<open>Lung.L\<close> does not yield the two synonyms that claim C1 states.\<close>

theorem synonyms_lung_l_counterexample:
  "length (generate_synonyms ''Lung.L'') \<noteq> 2"
  by code_simp

subsection \<open>Classification order\<close>

lemma any_kw_mem: "kw \<in> set kws \<Longrightarrow> str_contains s kw \<Longrightarrow> any_kw s kws"
  by (auto simp: any_kw_def list_ex_iff)

text \<open>
  Claim C6: when the lowercased text of collection name, space and object name contains
  both \<open>muscle\<close> and \<open>bone\<close>, \<open>determine_system\<close> returns SKELETAL: the skeletal
  keywords are tried first.
\<close>

theorem bone_before_muscle:
  assumes "str_contains (lower (collection_name @ '' '' @ object_name)) ''muscle''"
      and "str_contains (lower (collection_name @ '' '' @ object_name)) ''bone''"
  shows "determine_system collection_name object_name = ''SKELETAL''"
proof -
  have "any_kw (lower (collection_name @ '' '' @ object_name)) skeletal_kws"
    using assms(2) by (intro any_kw_mem[of "''bone''"]) (simp_all add: skeletal_kws_def)
  then show ?thesis by (simp add: determine_system_def)
qed

theorem bone_before_muscle_witness:
  "str_contains (lower (''4: Muscular system'' @ '' '' @ ''Muscle of the hip bone'')) ''muscle''
   \<and> str_contains (lower (''4: Muscular system'' @ '' '' @ ''Muscle of the hip bone'')) ''bone''
   \<and> determine_system ''4: Muscular system'' ''Muscle of the hip bone'' = ''SKELETAL''"
proof -
  have m: "str_contains (lower (''4: Muscular system'' @ '' '' @ ''Muscle of the hip bone'')) ''muscle''"
    by code_simp
  have b: "str_contains (lower (''4: Muscular system'' @ '' '' @ ''Muscle of the hip bone'')) ''bone''"
    by code_simp
  from bone_before_muscle [OF m b] m b show ?thesis by blast
qed

subsection \<open>One collection, one mesh\<close>

text \<open>
  Claim C4: on the scene whose only collection is \<open>1: Skeletal system\<close>, holding the one
  mesh object \<open>Skull\<close>, the run returns exactly one part record, with partId \<open>skull\<close>,
  system SKELETAL and the skeleton model path.
\<close>

theorem skull_end_to_end:
  "extract_ontology [''1: Skeletal system'' \<mapsto> [\<lparr>obj_type = ''MESH'', obj_name = ''Skull''\<rparr>]] =
     Inr [\<lparr>partId = ''skull'', name = ''Skull'', system = ''SKELETAL'',
           modelPath = ''/models/skeleton/skeleton-full.glb'', meshName = ''Skull'',
           synonyms = [\<lparr>synonym = ''skull'', language = ''en'', priority = 10\<rparr>]\<rparr>]"
  by code_simp

subsection \<open>The loop\<close>

text \<open>What one run of the inner loop appends, and what it adds to the processed names.\<close>

lemma name_part_entry [simp]: "name (part_entry sys n) = n"
  by (simp add: part_entry_def)

lemma has_mesh_named_Cons:
  "has_mesh_named n (obj # objs) = ((obj_type obj = ''MESH'' \<and> obj_name obj = n) \<or> has_mesh_named n objs)"
  by (simp add: has_mesh_named_def)

lemma has_mesh_named_Nil [simp]: "\<not> has_mesh_named n []"
  by (simp add: has_mesh_named_def)

lemma process_objects_appends:
  "\<exists>new. process_objects sys objs (ont, seen) = (ont @ new, seen \<union> set (map name new))
     \<and> distinct (map name new)
     \<and> set (map name new) = {n. has_mesh_named n objs \<and> n \<noteq> [] \<and> n \<notin> seen}
     \<and> (\<forall>p\<in>set new. p = part_entry sys (name p))"
proof (induction objs arbitrary: ont seen)
  case Nil
  then show ?case by simp
next
  case (Cons obj objs)
  show ?case
  proof (cases "obj_type obj \<noteq> ''MESH'' \<or> obj_name obj = [] \<or> obj_name obj \<in> seen")
    case True
    from Cons.IH [of ont seen] obtain new where
      new: "process_objects sys objs (ont, seen) = (ont @ new, seen \<union> set (map name new))"
        "distinct (map name new)"
        "set (map name new) = {n. has_mesh_named n objs \<and> n \<noteq> [] \<and> n \<notin> seen}"
        "\<forall>p\<in>set new. p = part_entry sys (name p)"
      by blast
    from True have "process_objects sys (obj # objs) (ont, seen) = process_objects sys objs (ont, seen)"
      by auto
    moreover from True have
      "{n. has_mesh_named n (obj # objs) \<and> n \<noteq> [] \<and> n \<notin> seen}
        = {n. has_mesh_named n objs \<and> n \<noteq> [] \<and> n \<notin> seen}"
      by (auto simp: has_mesh_named_Cons)
    ultimately show ?thesis using new by auto
  next
    case False
    let ?n = "obj_name obj"
    let ?e = "part_entry sys ?n"
    from Cons.IH [of "ont @ [?e]" "insert ?n seen"] obtain new where
      new: "process_objects sys objs (ont @ [?e], insert ?n seen)
              = ((ont @ [?e]) @ new, insert ?n seen \<union> set (map name new))"
        "distinct (map name new)"
        "set (map name new) = {n. has_mesh_named n objs \<and> n \<noteq> [] \<and> n \<notin> insert ?n seen}"
        "\<forall>p\<in>set new. p = part_entry sys (name p)"
      by blast
    from False have step: "process_objects sys (obj # objs) (ont, seen)
        = process_objects sys objs (ont @ [?e], insert ?n seen)"
      by auto
    have 1: "process_objects sys (obj # objs) (ont, seen)
        = (ont @ (?e # new), seen \<union> set (map name (?e # new)))"
      using step new(1) by simp
    have 2: "distinct (map name (?e # new))"
      using new(2,3) by auto
    have 3: "set (map name (?e # new)) = {n. has_mesh_named n (obj # objs) \<and> n \<noteq> [] \<and> n \<notin> seen}"
      using False new(3) by (auto simp: has_mesh_named_Cons)
    have 4: "\<forall>p\<in>set (?e # new). p = part_entry sys (name p)"
      using new(4) by simp
    from 1 2 3 4 show ?thesis by blast
  qed
qed


text \<open>The outer loop: an absent collection is passed over, a present one is classified once.\<close>

lemma process_collections_absent:
  "scene c = None \<Longrightarrow> process_collections scene (c # rest) st = process_collections scene rest st"
  by simp

lemma process_collections_present:
  "scene c = Some objs \<Longrightarrow>
     process_collections scene (c # rest) st
       = process_collections scene rest (process_objects (determine_system c '''') objs st)"
  by (simp add: lookup_collection_def)

lemma process_collections_appends:
  "\<exists>new. process_collections scene cs (ont, seen) = Inr (ont @ new, seen \<union> set (map name new))
     \<and> distinct (map name new)
     \<and> set (map name new) \<inter> seen = {}
     \<and> [] \<notin> set (map name new)
     \<and> (\<forall>p\<in>set new. \<exists>c. List.find (collection_has_mesh scene (name p)) cs = Some c
                          \<and> p = part_entry (determine_system c '''') (name p))
     \<and> (\<forall>n. n \<noteq> [] \<and> n \<notin> seen \<and> List.find (collection_has_mesh scene n) cs \<noteq> None
              \<longrightarrow> n \<in> set (map name new))"
proof (induction cs arbitrary: ont seen)
  case Nil
  then show ?case by simp
next
  case (Cons c rest)
  show ?case
  proof (cases "scene c")
    case None
    then have nomesh: "\<And>n. \<not> collection_has_mesh scene n c"
      by (simp add: collection_has_mesh_def)
    from Cons.IH [of ont seen] show ?thesis
      by (simp add: None nomesh)
  next
    case (Some objs)
    let ?sys = "determine_system c ''''"
    have mesh: "\<And>n. collection_has_mesh scene n c = has_mesh_named n objs"
      by (simp add: collection_has_mesh_def Some)
    from process_objects_appends [of ?sys objs ont seen] obtain new1 where
      n1: "process_objects ?sys objs (ont, seen) = (ont @ new1, seen \<union> set (map name new1))"
        "distinct (map name new1)"
        "set (map name new1) = {n. has_mesh_named n objs \<and> n \<noteq> [] \<and> n \<notin> seen}"
        "\<forall>p\<in>set new1. p = part_entry ?sys (name p)"
      by blast
    let ?seen1 = "seen \<union> set (map name new1)"
    from Cons.IH [of "ont @ new1" ?seen1] obtain new2 where
      n2: "process_collections scene rest (ont @ new1, ?seen1)
             = Inr ((ont @ new1) @ new2, ?seen1 \<union> set (map name new2))"
        "distinct (map name new2)"
        "set (map name new2) \<inter> ?seen1 = {}"
        "[] \<notin> set (map name new2)"
        "\<forall>p\<in>set new2. \<exists>c. List.find (collection_has_mesh scene (name p)) rest = Some c
                          \<and> p = part_entry (determine_system c '''') (name p)"
        "\<forall>n. n \<noteq> [] \<and> n \<notin> ?seen1 \<and> List.find (collection_has_mesh scene n) rest \<noteq> None
              \<longrightarrow> n \<in> set (map name new2)"
      by blast
    have "process_collections scene (c # rest) (ont, seen)
        = process_collections scene rest (ont @ new1, ?seen1)"
      by (simp only: process_collections_present [of scene c objs, OF Some] n1(1))
    also have "\<dots> = Inr (ont @ (new1 @ new2), seen \<union> set (map name (new1 @ new2)))"
      using n2(1) by (simp add: Un_assoc)
    finally have 1: "process_collections scene (c # rest) (ont, seen)
        = Inr (ont @ (new1 @ new2), seen \<union> set (map name (new1 @ new2)))" .
    have 2: "distinct (map name (new1 @ new2))"
      using n1(2) n2(2,3) by auto
    have 3: "set (map name (new1 @ new2)) \<inter> seen = {}"
      using n1(3) n2(3) by auto
    have 4: "[] \<notin> set (map name (new1 @ new2))"
      using n1(3) n2(4) by auto
    have 5: "\<forall>p\<in>set (new1 @ new2). \<exists>c'. List.find (collection_has_mesh scene (name p)) (c # rest) = Some c'
                          \<and> p = part_entry (determine_system c' '''') (name p)"
    proof
      fix p assume "p \<in> set (new1 @ new2)"
      then consider "p \<in> set new1" | "p \<in> set new2" by auto
      then show "\<exists>c'. List.find (collection_has_mesh scene (name p)) (c # rest) = Some c'
                          \<and> p = part_entry (determine_system c' '''') (name p)"
      proof cases
        case 1
        then have "name p \<in> set (map name new1)" by simp
        then have "has_mesh_named (name p) objs" using n1(3) by simp
        then show ?thesis using 1 n1(4) by (simp add: mesh)
      next
        case 2
        then have in2: "name p \<in> set (map name new2)" by simp
        then have "name p \<notin> ?seen1" "name p \<noteq> []" using n2(3,4) by auto
        then have "\<not> has_mesh_named (name p) objs" using n1(3) by auto
        then show ?thesis using 2 n2(5) by (simp add: mesh)
      qed
    qed
    have 6: "\<forall>n. n \<noteq> [] \<and> n \<notin> seen \<and> List.find (collection_has_mesh scene n) (c # rest) \<noteq> None
              \<longrightarrow> n \<in> set (map name (new1 @ new2))"
    proof (intro allI impI)
      fix n assume a: "n \<noteq> [] \<and> n \<notin> seen \<and> List.find (collection_has_mesh scene n) (c # rest) \<noteq> None"
      show "n \<in> set (map name (new1 @ new2))"
      proof (cases "has_mesh_named n objs")
        case True
        then have "n \<in> set (map name new1)" using a n1(3) by simp
        then show ?thesis by simp
      next
        case False
        then have "n \<notin> ?seen1" "List.find (collection_has_mesh scene n) rest \<noteq> None"
          using a n1(3) by (auto simp: mesh)
        then have "n \<in> set (map name new2)" using a n2(6) by blast
        then show ?thesis by simp
      qed
    qed
    from 1 2 3 4 5 6 show ?thesis by blast
  qed
qed


text \<open>The whole run: it always returns, and every record is traced to its source collection.\<close>

lemma extract_ontology_parts:
  "\<exists>ps. extract_ontology scene = Inr ps
     \<and> distinct (map name ps)
     \<and> [] \<notin> set (map name ps)
     \<and> (\<forall>p\<in>set ps. \<exists>c. source_collection scene (name p) = Some c
                          \<and> p = part_entry (determine_system c '''') (name p))
     \<and> (\<forall>n. n \<noteq> [] \<and> source_collection scene n \<noteq> None \<longrightarrow> n \<in> set (map name ps))"
proof -
  from process_collections_appends [of scene main_collections "[]" "{}"] obtain new where
    new: "process_collections scene main_collections ([], {}) = Inr ([] @ new, {} \<union> set (map name new))"
      "distinct (map name new)"
      "[] \<notin> set (map name new)"
      "\<forall>p\<in>set new. \<exists>c. List.find (collection_has_mesh scene (name p)) main_collections = Some c
                          \<and> p = part_entry (determine_system c '''') (name p)"
      "\<forall>n. n \<noteq> [] \<and> n \<notin> {} \<and> List.find (collection_has_mesh scene n) main_collections \<noteq> None
              \<longrightarrow> n \<in> set (map name new)"
    by blast
  from new(1) have "extract_ontology scene = Inr new"
    by (simp add: extract_ontology_def)
  with new(2-5) show ?thesis
    unfolding source_collection_def by auto
qed

subsection \<open>Deduplication by display name\<close>

lemma filter_distinct_key:
  "distinct (map f xs) \<Longrightarrow> x \<in> set xs \<Longrightarrow> filter (\<lambda>y. f y = f x) xs = [x]"
proof (induction xs)
  case Nil
  then show ?case by simp
next
  case (Cons a xs)
  show ?case
  proof (cases "a = x")
    case True
    with Cons.prems have "f x \<notin> f ` set xs" by simp
    then have "\<forall>y\<in>set xs. f y \<noteq> f x" by (metis imageI)
    then have "filter (\<lambda>y. f y = f x) xs = []" by (simp add: filter_empty_conv)
    with True show ?thesis by simp
  next
    case False
    with Cons.prems have "x \<in> set xs" "f a \<noteq> f x" "distinct (map f xs)" by auto
    with Cons.IH show ?thesis by simp
  qed
qed

text \<open>
  Claim C5: display names are deduplicated across all processed collections. The run
  returns a list in which no two records share a display name; and for a non-empty name
  that some present main collection holds as a mesh, whether one collection or several,
  the list has exactly one record of that name, the entry built under the system of the
  first such collection in the order of the loop.
\<close>

theorem dedup_first_collection:
  assumes "n \<noteq> []" and "source_collection scene n = Some c"
  shows "\<exists>ps. extract_ontology scene = Inr ps
           \<and> distinct (map name ps)
           \<and> filter (\<lambda>p. name p = n) ps = [part_entry (determine_system c '''') n]"
proof -
  from extract_ontology_parts [of scene] obtain ps where
    ps: "extract_ontology scene = Inr ps"
      "distinct (map name ps)"
      "\<forall>p\<in>set ps. \<exists>c. source_collection scene (name p) = Some c
                          \<and> p = part_entry (determine_system c '''') (name p)"
      "\<forall>n. n \<noteq> [] \<and> source_collection scene n \<noteq> None \<longrightarrow> n \<in> set (map name ps)"
    by blast
  from assms ps(4) have "n \<in> set (map name ps)" by simp
  then obtain p where p: "p \<in> set ps" "name p = n" by auto
  with ps(3) assms(2) have eq: "p = part_entry (determine_system c '''') n" by auto
  from filter_distinct_key [OF ps(2) p(1)] p(2) have "filter (\<lambda>q. name q = n) ps = [p]" by simp
  with eq ps(1,2) show ?thesis by simp
qed

theorem dedup_first_collection_witness:
  "''Heart'' \<noteq> []
   \<and> source_collection
        [''4: Muscular system'' \<mapsto> [\<lparr>obj_type = ''MESH'', obj_name = ''Heart''\<rparr>],
         ''5: Cardiovascular system'' \<mapsto> [\<lparr>obj_type = ''MESH'', obj_name = ''Heart''\<rparr>]]
        ''Heart'' = Some ''4: Muscular system''
   \<and> (\<exists>ps. extract_ontology
          [''4: Muscular system'' \<mapsto> [\<lparr>obj_type = ''MESH'', obj_name = ''Heart''\<rparr>],
           ''5: Cardiovascular system'' \<mapsto> [\<lparr>obj_type = ''MESH'', obj_name = ''Heart''\<rparr>]] = Inr ps
         \<and> distinct (map name ps)
         \<and> filter (\<lambda>p. name p = ''Heart'') ps =
             [part_entry (determine_system ''4: Muscular system'' '''') ''Heart''])"
proof -
  let ?scene = "[''4: Muscular system'' \<mapsto> [\<lparr>obj_type = ''MESH'', obj_name = ''Heart''\<rparr>],
         ''5: Cardiovascular system'' \<mapsto> [\<lparr>obj_type = ''MESH'', obj_name = ''Heart''\<rparr>]]"
  have h1: "''Heart'' \<noteq> []" by simp
  have h2: "source_collection ?scene ''Heart'' = Some ''4: Muscular system''" by code_simp
  from dedup_first_collection [OF h1 h2] h1 h2 show ?thesis by blast
qed

text \<open>The scene of the witness, run: the one record is MUSCULAR, from the first collection.\<close>

lemma two_hearts_example:
  "extract_ontology
        [''4: Muscular system'' \<mapsto> [\<lparr>obj_type = ''MESH'', obj_name = ''Heart''\<rparr>],
         ''5: Cardiovascular system'' \<mapsto> [\<lparr>obj_type = ''MESH'', obj_name = ''Heart''\<rparr>]]
     = Inr [\<lparr>partId = ''heart'', name = ''Heart'', system = ''MUSCULAR'',
           modelPath = ''/models/muscular/muscles-full.glb'', meshName = ''Heart'',
           synonyms = [\<lparr>synonym = ''heart'', language = ''en'', priority = 10\<rparr>]\<rparr>]"
  by code_simp

subsection \<open>The systems that occur\<close>

lemma find_Some_mem: "List.find P xs = Some x \<Longrightarrow> x \<in> set xs"
  by (induction xs) (auto split: if_splits)

lemma main_collection_systems:
  "map (\<lambda>c. determine_system c '''') main_collections
     = [''SKELETAL'', ''MUSCULAR'', ''SKELETAL'', ''NERVOUS'', ''SKELETAL'']"
  by code_simp

lemma main_collection_system_cases:
  assumes "c \<in> set main_collections"
  shows "determine_system c '''' \<in> {''SKELETAL'', ''MUSCULAR'', ''NERVOUS''}"
proof -
  from assms have "determine_system c '''' \<in> set (map (\<lambda>c. determine_system c '''') main_collections)"
    by simp
  then show ?thesis unfolding main_collection_systems by auto
qed

lemma source_collection_main: "source_collection scene n = Some c \<Longrightarrow> c \<in> set main_collections"
  unfolding source_collection_def by (rule find_Some_mem)

lemma part_entry_fields [simp]:
  "system (part_entry sys n) = sys" "modelPath (part_entry sys n) = model_path sys"
  by (simp_all add: part_entry_def)

lemma no_keyword_skeletal:
  "\<not> any_kw (lower (''1: Skeletal system'' @ '' '' @ ''''))
       (skeletal_kws @ muscular_kws @ nervous_kws @ cardiovascular_kws @ respiratory_kws
        @ digestive_kws @ urinary_kws @ lymphatic_kws @ integumentary_kws)"
  by code_simp

lemma no_keyword_cardiovascular:
  "\<not> any_kw (lower (''5: Cardiovascular system'' @ '' '' @ ''''))
       (skeletal_kws @ muscular_kws @ nervous_kws @ cardiovascular_kws @ respiratory_kws
        @ digestive_kws @ urinary_kws @ lymphatic_kws @ integumentary_kws)"
  by code_simp

lemma no_keyword_visceral:
  "\<not> any_kw (lower (''8: Visceral systems'' @ '' '' @ ''''))
       (skeletal_kws @ muscular_kws @ nervous_kws @ cardiovascular_kws @ respiratory_kws
        @ digestive_kws @ urinary_kws @ lymphatic_kws @ integumentary_kws)"
  by code_simp

lemma default_collections:
  "determine_system ''1: Skeletal system'' '''' = ''SKELETAL''"
  "determine_system ''5: Cardiovascular system'' '''' = ''SKELETAL''"
  "determine_system ''8: Visceral systems'' '''' = ''SKELETAL''"
  by code_simp+

lemma record_systems:
  "\<exists>ps. extract_ontology scene = Inr ps
     \<and> (\<forall>p\<in>set ps.
           system p \<in> {''SKELETAL'', ''MUSCULAR'', ''NERVOUS''}
         \<and> modelPath p \<in> {''/models/skeleton/skeleton-full.glb'',
                            ''/models/muscular/muscles-full.glb'',
                            ''/models/nervous/nervous-full.glb''}
         \<and> system p \<notin> {''CARDIOVASCULAR'', ''RESPIRATORY'', ''DIGESTIVE'',
                          ''URINARY'', ''LYMPHATIC'', ''INTEGUMENTARY''})"
proof -
  from extract_ontology_parts [of scene] obtain ps where
    ps: "extract_ontology scene = Inr ps"
      "\<forall>p\<in>set ps. \<exists>c. source_collection scene (name p) = Some c
                          \<and> p = part_entry (determine_system c '''') (name p)"
    by blast
  have "system p \<in> {''SKELETAL'', ''MUSCULAR'', ''NERVOUS''}
         \<and> modelPath p \<in> {''/models/skeleton/skeleton-full.glb'',
                            ''/models/muscular/muscles-full.glb'',
                            ''/models/nervous/nervous-full.glb''}
         \<and> system p \<notin> {''CARDIOVASCULAR'', ''RESPIRATORY'', ''DIGESTIVE'',
                          ''URINARY'', ''LYMPHATIC'', ''INTEGUMENTARY''}"
    if "p \<in> set ps" for p
  proof -
    from that ps(2) obtain c where
      c: "source_collection scene (name p) = Some c" "p = part_entry (determine_system c '''') (name p)"
      by blast
    from c(1) have "determine_system c '''' \<in> {''SKELETAL'', ''MUSCULAR'', ''NERVOUS''}"
      by (intro main_collection_system_cases source_collection_main)
    moreover from c(2) have "system p = determine_system c ''''"
      and "modelPath p = model_path (system p)"
      by (metis part_entry_fields(1), metis part_entry_fields)
    ultimately consider "system p = ''SKELETAL''" "modelPath p = model_path ''SKELETAL''"
      | "system p = ''MUSCULAR''" "modelPath p = model_path ''MUSCULAR''"
      | "system p = ''NERVOUS''" "modelPath p = model_path ''NERVOUS''"
      by auto
    then show ?thesis
      by cases (simp_all add: model_path_def system_paths_def)
  qed
  with ps(1) show ?thesis by blast
qed


text \<open>
  Claim C3: every record of every run has system SKELETAL, MUSCULAR or NERVOUS and one of
  the three model paths of these systems; none of the other six systems occurs. The
  lowercased texts classified for \<open>1: Skeletal system\<close>, \<open>5: Cardiovascular system\<close>
  and \<open>8: Visceral systems\<close> contain no keyword of any of the nine lists, so these three
  collections fall to the SKELETAL default.
\<close>

theorem output_systems:
  "(\<exists>ps. extract_ontology scene = Inr ps
      \<and> (\<forall>p\<in>set ps.
            system p \<in> {''SKELETAL'', ''MUSCULAR'', ''NERVOUS''}
          \<and> modelPath p \<in> {''/models/skeleton/skeleton-full.glb'',
                             ''/models/muscular/muscles-full.glb'',
                             ''/models/nervous/nervous-full.glb''}
          \<and> system p \<notin> {''CARDIOVASCULAR'', ''RESPIRATORY'', ''DIGESTIVE'',
                           ''URINARY'', ''LYMPHATIC'', ''INTEGUMENTARY''}))
   \<and> \<not> any_kw (lower (''1: Skeletal system'' @ '' '' @ ''''))
         (skeletal_kws @ muscular_kws @ nervous_kws @ cardiovascular_kws @ respiratory_kws
          @ digestive_kws @ urinary_kws @ lymphatic_kws @ integumentary_kws)
   \<and> \<not> any_kw (lower (''5: Cardiovascular system'' @ '' '' @ ''''))
         (skeletal_kws @ muscular_kws @ nervous_kws @ cardiovascular_kws @ respiratory_kws
          @ digestive_kws @ urinary_kws @ lymphatic_kws @ integumentary_kws)
   \<and> \<not> any_kw (lower (''8: Visceral systems'' @ '' '' @ ''''))
         (skeletal_kws @ muscular_kws @ nervous_kws @ cardiovascular_kws @ respiratory_kws
          @ digestive_kws @ urinary_kws @ lymphatic_kws @ integumentary_kws)
   \<and> determine_system ''1: Skeletal system'' '''' = ''SKELETAL''
   \<and> determine_system ''5: Cardiovascular system'' '''' = ''SKELETAL''
   \<and> determine_system ''8: Visceral systems'' '''' = ''SKELETAL''"
  using record_systems [of scene] no_keyword_skeletal no_keyword_cardiovascular
    no_keyword_visceral default_collections
  by blast

theorem output_systems_witness:
  "\<exists>ps. extract_ontology
          [''5: Cardiovascular system'' \<mapsto> [\<lparr>obj_type = ''MESH'', obj_name = ''Heart''\<rparr>],
           ''7: Nervous system & Sense organs'' \<mapsto> [\<lparr>obj_type = ''MESH'', obj_name = ''Brain''\<rparr>]]
        = Inr ps
      \<and> map name ps = [''Heart'', ''Brain'']
      \<and> map system ps = [''SKELETAL'', ''NERVOUS'']
      \<and> set (map system ps) \<subseteq> {''SKELETAL'', ''MUSCULAR'', ''NERVOUS''}"
proof -
  let ?scene = "[''5: Cardiovascular system'' \<mapsto> [\<lparr>obj_type = ''MESH'', obj_name = ''Heart''\<rparr>],
           ''7: Nervous system & Sense organs'' \<mapsto> [\<lparr>obj_type = ''MESH'', obj_name = ''Brain''\<rparr>]]"
  from output_systems [of ?scene] obtain ps where
    ps: "extract_ontology ?scene = Inr ps"
      "\<forall>p\<in>set ps. system p \<in> {''SKELETAL'', ''MUSCULAR'', ''NERVOUS''}"
    by blast
  have run: "extract_ontology ?scene
      = Inr [part_entry ''SKELETAL'' ''Heart'', part_entry ''NERVOUS'' ''Brain'']"
    by code_simp
  with ps(1) have "ps = [part_entry ''SKELETAL'' ''Heart'', part_entry ''NERVOUS'' ''Brain'']"
    by simp
  then have a: "map name ps = [''Heart'', ''Brain'']" "map system ps = [''SKELETAL'', ''NERVOUS'']"
    by simp_all
  from ps(2) have b: "set (map system ps) \<subseteq> {''SKELETAL'', ''MUSCULAR'', ''NERVOUS''}"
    by auto
  show ?thesis
    by (rule exI [of _ ps]) (intro conjI ps(1) a b)
qed

subsection \<open>Classification by collection alone\<close>

text \<open>
  Claim C8: the system of a record is the value of \<open>determine_system\<close> at the name of
  its source collection and the empty object name, and its model path is the path of
  that system; the object's own display name plays no part. Hence two records of one
  run that come from the same collection agree on system and model path. That the loop
  evaluates \<open>determine_system\<close> once for each present collection, with the empty
  object name, is lemma \<open>process_collections_present\<close>.
\<close>

theorem system_from_collection_only:
  "\<exists>ps. extract_ontology scene = Inr ps
     \<and> (\<forall>p\<in>set ps. \<exists>c. source_collection scene (name p) = Some c
            \<and> system p = determine_system c ''''
            \<and> modelPath p = model_path (determine_system c ''''))
     \<and> (\<forall>p\<in>set ps. \<forall>q\<in>set ps.
            source_collection scene (name p) = source_collection scene (name q)
            \<longrightarrow> system p = system q \<and> modelPath p = modelPath q)"
proof -
  from extract_ontology_parts [of scene] obtain ps where
    ps: "extract_ontology scene = Inr ps"
      "\<forall>p\<in>set ps. \<exists>c. source_collection scene (name p) = Some c
                          \<and> p = part_entry (determine_system c '''') (name p)"
    by blast
  have one: "\<exists>c. source_collection scene (name p) = Some c
            \<and> system p = determine_system c ''''
            \<and> modelPath p = model_path (determine_system c '''')" if "p \<in> set ps" for p
  proof -
    from that ps(2) obtain c where
      c: "source_collection scene (name p) = Some c" "p = part_entry (determine_system c '''') (name p)"
      by blast
    from c(2) have "system p = determine_system c ''''"
      and "modelPath p = model_path (determine_system c '''')"
      by (metis part_entry_fields(1), metis part_entry_fields(2))
    with c(1) show ?thesis by blast
  qed
  have two: "system p = system q \<and> modelPath p = modelPath q"
    if "p \<in> set ps" "q \<in> set ps"
      "source_collection scene (name p) = source_collection scene (name q)" for p q
    using one [OF that(1)] one [OF that(2)] that(3) by auto
  from ps(1) one two show ?thesis by blast
qed

theorem system_from_collection_only_witness:
  "\<exists>ps. extract_ontology
          [''8: Visceral systems'' \<mapsto> [\<lparr>obj_type = ''MESH'', obj_name = ''Left lung''\<rparr>,
                                      \<lparr>obj_type = ''MESH'', obj_name = ''Liver''\<rparr>]] = Inr ps
      \<and> map name ps = [''Left lung'', ''Liver'']
      \<and> map system ps = [''SKELETAL'', ''SKELETAL'']
      \<and> map (\<lambda>p. source_collection
                     [''8: Visceral systems'' \<mapsto> [\<lparr>obj_type = ''MESH'', obj_name = ''Left lung''\<rparr>,
                                                \<lparr>obj_type = ''MESH'', obj_name = ''Liver''\<rparr>]]
                     (name p)) ps
          = [Some ''8: Visceral systems'', Some ''8: Visceral systems'']
      \<and> map modelPath ps = map (\<lambda>p. model_path (determine_system ''8: Visceral systems'' '''')) ps"
proof -
  let ?scene = "[''8: Visceral systems'' \<mapsto> [\<lparr>obj_type = ''MESH'', obj_name = ''Left lung''\<rparr>,
                                      \<lparr>obj_type = ''MESH'', obj_name = ''Liver''\<rparr>]]"
  from system_from_collection_only [of ?scene] obtain ps where
    ps: "extract_ontology ?scene = Inr ps"
      "\<forall>p\<in>set ps. \<exists>c. source_collection ?scene (name p) = Some c
            \<and> system p = determine_system c ''''
            \<and> modelPath p = model_path (determine_system c '''')"
    by blast
  have run: "extract_ontology ?scene
      = Inr [part_entry ''SKELETAL'' ''Left lung'', part_entry ''SKELETAL'' ''Liver'']"
    by code_simp
  with ps(1) have eq: "ps = [part_entry ''SKELETAL'' ''Left lung'', part_entry ''SKELETAL'' ''Liver'']"
    by simp
  have src: "source_collection ?scene ''Left lung'' = Some ''8: Visceral systems''"
    "source_collection ?scene ''Liver'' = Some ''8: Visceral systems''"
    by code_simp+
  from eq src have a: "map name ps = [''Left lung'', ''Liver'']"
    "map system ps = [''SKELETAL'', ''SKELETAL'']"
    "map (\<lambda>p. source_collection ?scene (name p)) ps
          = [Some ''8: Visceral systems'', Some ''8: Visceral systems'']"
    by simp_all
  have "modelPath p = model_path (determine_system ''8: Visceral systems'' '''')" if "p \<in> set ps" for p
  proof -
    from that ps(2) obtain c where c: "source_collection ?scene (name p) = Some c"
      "modelPath p = model_path (determine_system c '''')" by blast
    from that eq src have "source_collection ?scene (name p) = Some ''8: Visceral systems''"
      by auto
    with c show ?thesis by simp
  qed
  then have b: "map modelPath ps = map (\<lambda>p. model_path (determine_system ''8: Visceral systems'' '''')) ps"
    by simp
  show ?thesis
    by (rule exI [of _ ps]) (intro conjI ps(1) a b)
qed


subsection \<open>A missing collection\<close>

lemma process_collections_skip_absent:
  "scene c = None \<Longrightarrow>
     process_collections scene (removeAll c cs) st = process_collections scene cs st"
proof (induction cs arbitrary: st)
  case Nil
  then show ?case by simp
next
  case (Cons a cs)
  show ?case
  proof (cases "a = c")
    case True
    with Cons show ?thesis by simp
  next
    case False
    with Cons show ?thesis by (simp split: sum.splits)
  qed
qed

lemma process_collections_empty_collection:
  "scene c = None \<Longrightarrow>
     process_collections (scene(c \<mapsto> [])) cs st = process_collections scene cs st"
proof (induction cs arbitrary: st)
  case Nil
  then show ?case by simp
next
  case (Cons a cs)
  let ?scene' = "scene(c \<mapsto> [])"
  have IH: "\<And>st. process_collections ?scene' cs st = process_collections scene cs st"
    using Cons by blast
  show ?case
  proof (cases "a = c")
    case True
    have "?scene' c = Some []" by simp
    then have "process_collections ?scene' (c # cs) st
        = process_collections ?scene' cs (process_objects (determine_system c '''') [] st)"
      by (rule process_collections_present)
    also have "\<dots> = process_collections scene cs st"
      by (simp add: IH)
    also have "\<dots> = process_collections scene (c # cs) st"
      using Cons.prems by (rule process_collections_absent [symmetric])
    finally have "process_collections ?scene' (c # cs) st = process_collections scene (c # cs) st" .
    then show ?thesis by (simp only: True)
  next
    case False
    then have same: "?scene' a = scene a" by simp
    show ?thesis
    proof (cases "scene a")
      case None
      with same have "?scene' a = None" by simp
      then have "process_collections ?scene' (a # cs) st = process_collections ?scene' cs st"
        by (rule process_collections_absent)
      also have "\<dots> = process_collections scene cs st" by (rule IH)
      also have "\<dots> = process_collections scene (a # cs) st"
        using None by (rule process_collections_absent [symmetric])
      finally show ?thesis .
    next
      case (Some objs)
      with same have "?scene' a = Some objs" by simp
      then have "process_collections ?scene' (a # cs) st
          = process_collections ?scene' cs (process_objects (determine_system a '''') objs st)"
        by (rule process_collections_present)
      also have "\<dots> = process_collections scene cs (process_objects (determine_system a '''') objs st)"
        by (rule IH)
      also have "\<dots> = process_collections scene (a # cs) st"
        using Some by (rule process_collections_present [symmetric])
      finally show ?thesis .
    qed
  qed
qed

text \<open>
  Claim C10: when a collection is absent from the scene, the run still returns a list
  (the guarded lookup never raises); the loop over the five names does what the loop
  over the names without the absent one does; and the result is the result on the scene
  in which that collection is present and empty.
\<close>

theorem missing_collection_skipped:
  assumes "scene c = None"
  shows "(\<exists>ps. extract_ontology scene = Inr ps)
       \<and> process_collections scene main_collections ([], {})
           = process_collections scene (removeAll c main_collections) ([], {})
       \<and> extract_ontology scene = extract_ontology (scene(c \<mapsto> []))"
proof -
  from extract_ontology_parts [of scene] have "\<exists>ps. extract_ontology scene = Inr ps"
    by blast
  moreover from assms have "process_collections scene main_collections ([], {})
           = process_collections scene (removeAll c main_collections) ([], {})"
    by (simp add: process_collections_skip_absent)
  moreover from assms have "extract_ontology scene = extract_ontology (scene(c \<mapsto> []))"
    by (simp add: extract_ontology_def process_collections_empty_collection)
  ultimately show ?thesis by simp
qed

theorem missing_collection_skipped_witness:
  "[''1: Skeletal system'' \<mapsto> [\<lparr>obj_type = ''MESH'', obj_name = ''Skull''\<rparr>],
    ''5: Cardiovascular system'' \<mapsto> [\<lparr>obj_type = ''MESH'', obj_name = ''Heart''\<rparr>]]
     ''4: Muscular system'' = None
   \<and> extract_ontology
        [''1: Skeletal system'' \<mapsto> [\<lparr>obj_type = ''MESH'', obj_name = ''Skull''\<rparr>],
         ''5: Cardiovascular system'' \<mapsto> [\<lparr>obj_type = ''MESH'', obj_name = ''Heart''\<rparr>]]
       = Inr [part_entry ''SKELETAL'' ''Skull'', part_entry ''SKELETAL'' ''Heart'']
   \<and> extract_ontology
        [''1: Skeletal system'' \<mapsto> [\<lparr>obj_type = ''MESH'', obj_name = ''Skull''\<rparr>],
         ''5: Cardiovascular system'' \<mapsto> [\<lparr>obj_type = ''MESH'', obj_name = ''Heart''\<rparr>],
         ''4: Muscular system'' \<mapsto> []]
       = Inr [part_entry ''SKELETAL'' ''Skull'', part_entry ''SKELETAL'' ''Heart'']"
proof -
  let ?scene = "[''1: Skeletal system'' \<mapsto> [\<lparr>obj_type = ''MESH'', obj_name = ''Skull''\<rparr>],
    ''5: Cardiovascular system'' \<mapsto> [\<lparr>obj_type = ''MESH'', obj_name = ''Heart''\<rparr>]]"
  have absent: "?scene ''4: Muscular system'' = None" by simp
  have run: "extract_ontology ?scene
      = Inr [part_entry ''SKELETAL'' ''Skull'', part_entry ''SKELETAL'' ''Heart'']"
    by code_simp
  from missing_collection_skipped [of ?scene "''4: Muscular system''", OF absent]
  have "extract_ontology ?scene = extract_ontology (?scene(''4: Muscular system'' \<mapsto> []))"
    by (rule conjunct2 [THEN conjunct2])
  with run have "extract_ontology (?scene(''4: Muscular system'' \<mapsto> []))
      = Inr [part_entry ''SKELETAL'' ''Skull'', part_entry ''SKELETAL'' ''Heart'']"
    by simp
  with absent run show ?thesis by (intro conjI)
qed

end
